theory Spec2Isabelle
  imports Main
begin

section \<open>PowerPointLocalDataSet: tables on slides as tabular data\<close>

text \<open>
  A shallow embedding of \<^verbatim>\<open>kedro_tutorial/io/powerpoint/powerpoint_local.py\<close>.
  The presentation library and the data-frame library are not part of the repository:
  the slide, table and cell objects are records holding the attributes the adapter reads
  and writes, and the data-frame operations (\<^verbatim>\<open>shape\<close>, \<^verbatim>\<open>to_csv\<close>,
  \<^verbatim>\<open>read_csv\<close>) are parameters of the adapter's functions.
\<close>

subsection \<open>Exceptions\<close>

datatype error =
    AssertionError          \<comment> \<open>a failed \<^verbatim>\<open>assert\<close>\<close>
  | DataSetError            \<comment> \<open>the adapter's own domain error\<close>
  | IndexError              \<comment> \<open>sequence index out of range\<close>
  | ValueError              \<comment> \<open>wrong number of values to unpack\<close>
  | StopIteration           \<comment> \<open>\<^verbatim>\<open>next\<close> on an exhausted iterator\<close>
  | AttributeError          \<comment> \<open>attribute access on \<^verbatim>\<open>None\<close>\<close>
  | KeyError                \<comment> \<open>missing dictionary key or relationship\<close>
  | TypeError               \<comment> \<open>a value of the wrong type\<close>
  | PackageNotFoundError    \<comment> \<open>no document at the given path\<close>
  | PandasError             \<comment> \<open>any failure inside the data-frame library\<close>

subsection \<open>Strings\<close>

text \<open>
  Python strings are modelled as \<^typ>\<open>string\<close>, one \<^typ>\<open>char\<close> per code point
  below 256. \<^verbatim>\<open>str.split(",")\<close> always returns at least one field.
\<close>

fun split :: "char \<Rightarrow> string \<Rightarrow> string list" where
  "split c [] = [[]]"
| "split c (x # xs) =
     (let r = split c xs in if x = c then [] # r else (x # hd r) # tl r)"

text \<open>\<^verbatim>\<open>sep.join(xs)\<close>\<close>

fun join :: "string \<Rightarrow> string list \<Rightarrow> string" where
  "join sep [] = []"
| "join sep [x] = x"
| "join sep (x # y # ys) = x @ sep @ join sep (y # ys)"

text \<open>
  The line boundaries of \<^verbatim>\<open>str.splitlines()\<close> among the code points below 256:
  LF, VT, FF, CR, FS, GS, RS and NEL. (U+2028 and U+2029 are boundaries too; they lie
  outside the modelled character range.)
\<close>

definition is_linebreak :: "char \<Rightarrow> bool" where
  "is_linebreak c \<longleftrightarrow>
     c \<in> set [CHR 0x0A, CHR 0x0B, CHR 0x0C, CHR 0x0D, CHR 0x1C, CHR 0x1D, CHR 0x1E, CHR 0x85]"

text \<open>
  \<^verbatim>\<open>str.splitlines()\<close>: CR LF is one boundary, and no empty last line is produced for
  a text that ends in a boundary. \<open>cur\<close> is the current line, reversed.
\<close>

fun lines_from :: "string \<Rightarrow> string \<Rightarrow> string list" where
  "lines_from cur [] = (if cur = [] then [] else [rev cur])"
| "lines_from cur (x # xs) =
     (if x = CHR 0x0D then
        (case xs of
           [] \<Rightarrow> [rev cur]
         | y # ys \<Rightarrow>
             if y = CHR 0x0A then rev cur # lines_from [] ys
             else rev cur # lines_from [] xs)
      else if is_linebreak x then rev cur # lines_from [] xs
      else lines_from (x # cur) xs)"

definition splitlines :: "string \<Rightarrow> string list" where
  "splitlines s = lines_from [] s"

subsection \<open>Cells, rows and tables\<close>

type_synonym rgb = "nat \<times> nat \<times> nat"

text \<open>
  \<^verbatim>\<open>cell.fill\<close>: the adapter distinguishes \<^verbatim>\<open>MSO_FILL.BACKGROUND\<close>,
  \<^verbatim>\<open>MSO_FILL.SOLID\<close> (with its foreground colour) and everything else (no explicit
  fill, gradient, pattern, picture).
\<close>

datatype fill = NoFill | Background | Solid rgb | OtherFill

text \<open>
  A run's font. Every attribute may be unset (\<^verbatim>\<open>None\<close>); the size is in hundredths of
  a point, as the document stores it, so that \<^verbatim>\<open>Pt(font.size.pt)\<close> is the size itself.
\<close>

record font =
  font_name :: "string option"
  font_size :: "nat option"
  font_bold :: "bool option"
  font_italic :: "bool option"
  theme_color :: nat

record run =
  run_text :: string
  run_font :: font

type_synonym para = "run list"

record cell =
  cell_fill :: fill
  margin_bottom :: int
  margin_left :: int
  margin_right :: int
  margin_top :: int
  paragraphs :: "para list"   \<comment> \<open>\<^verbatim>\<open>cell.text_frame.paragraphs\<close>\<close>

record row =
  row_height :: int
  cells :: "cell list"

text \<open>
  A table together with the graphic frame that holds it (\<^verbatim>\<open>table._graphic_frame\<close>):
  the frame's position and size, the column widths and the rows.
\<close>

record table =
  frame_left :: int
  frame_top :: int
  frame_width :: int
  frame_height :: int
  columns :: "int list"
  rows :: "row list"

text \<open>
  A shape: it may be the slide's title placeholder, it has a text, and it may carry a
  table (\<^verbatim>\<open>shape.has_table\<close>, \<^verbatim>\<open>shape.table\<close>).
\<close>

record shape =
  is_title :: bool
  shape_text :: string
  shape_table :: "table option"

definition has_table :: "shape \<Rightarrow> bool" where
  "has_table s \<longleftrightarrow> shape_table s \<noteq> None"

record slide =
  shapes :: "shape list"

text \<open>\<^verbatim>\<open>cell.text\<close>: the paragraphs' texts joined by line feeds.\<close>

definition paragraph_text :: "para \<Rightarrow> string" where
  "paragraph_text p = concat (map run_text p)"

definition cell_text :: "cell \<Rightarrow> string" where
  "cell_text c = join [CHR 0x0A] (map paragraph_text (paragraphs c))"

subsection \<open>The cell formatter\<close>

definition new_font :: font where
  "new_font = \<lparr>font_name = None, font_size = None, font_bold = None, font_italic = None,
               theme_color = 0\<rparr>"

text \<open>
  \<^verbatim>\<open>text_frame._set_font(name, size, bold, italic)\<close> sets the four attributes on every
  run of every paragraph of the cell.
\<close>

definition set_font :: "string option \<Rightarrow> nat \<Rightarrow> bool option \<Rightarrow> bool option \<Rightarrow> run \<Rightarrow> run" where
  "set_font nm sz b i r =
     r\<lparr>run_font := (run_font r)\<lparr>font_name := nm, font_size := Some sz,
                                 font_bold := b, font_italic := i\<rparr>\<rparr>"

text \<open>The fill of the exemplar copied onto a cell; other fill types are left as they are.\<close>

definition copy_fill :: "cell \<Rightarrow> cell \<Rightarrow> cell" where
  "copy_fill like c =
     (case cell_fill like of
        Background \<Rightarrow> c\<lparr>cell_fill := Background\<rparr>
      | Solid col \<Rightarrow> c\<lparr>cell_fill := Solid col\<rparr>
      | _ \<Rightarrow> c)"

text \<open>
  The body of the loop of \<^verbatim>\<open>_format_cells\<close> for one (cell, value) pair. Indexing
  \<^verbatim>\<open>paragraphs[0]\<close> and \<^verbatim>\<open>runs[0]\<close> raises \<^verbatim>\<open>IndexError\<close> on an empty
  sequence, and \<^verbatim>\<open>font.size.pt\<close> raises \<^verbatim>\<open>AttributeError\<close> when the size is unset.
\<close>

definition format_cell :: "cell \<Rightarrow> cell \<Rightarrow> string \<Rightarrow> error + cell" where
  "format_cell like c v =
     (let c1 = copy_fill like c;
          c2 = c1\<lparr>margin_bottom := margin_bottom like, margin_left := margin_left like,
                  margin_right := margin_right like, margin_top := margin_top like\<rparr>
      in case paragraphs c2 of
           [] \<Rightarrow> Inl IndexError
         | p # ps \<Rightarrow>
            (case paragraphs like of
               [] \<Rightarrow> Inl IndexError
             | lp # _ \<Rightarrow>
                (case lp of
                   [] \<Rightarrow> Inl IndexError
                 | lr # _ \<Rightarrow>
                    (let f = run_font lr;
                         r = \<lparr>run_text = v, run_font = new_font\<lparr>theme_color := theme_color f\<rparr>\<rparr>;
                         ps1 = (p @ [r]) # ps
                     in case font_size f of
                          None \<Rightarrow> Inl AttributeError
                        | Some sz \<Rightarrow>
                            Inr (c2\<lparr>paragraphs :=
                                   map (map (set_font (font_name f) sz (font_bold f) (font_italic f)))
                                     ps1\<rparr>)))))"

text \<open>
  \<^verbatim>\<open>for cell, value in zip(row.cells, line.split(","))\<close>: the loop ends with the shorter
  sequence; the cells beyond it stay as they are. The first failure ends the loop.
\<close>

fun format_pairs :: "cell \<Rightarrow> cell list \<Rightarrow> string list \<Rightarrow> error + cell list" where
  "format_pairs like [] vs = Inr []"
| "format_pairs like (c # cs) [] = Inr (c # cs)"
| "format_pairs like (c # cs) (v # vs) =
     (case format_cell like c v of
        Inl e \<Rightarrow> Inl e
      | Inr c' \<Rightarrow>
         (case format_pairs like cs vs of
            Inl e \<Rightarrow> Inl e
          | Inr cs' \<Rightarrow> Inr (c' # cs')))"

definition format_cells :: "row \<Rightarrow> string \<Rightarrow> cell \<Rightarrow> error + row" where
  "format_cells r line like =
     (case format_pairs like (cells r) (split CHR '','' line) of
        Inl e \<Rightarrow> Inl e
      | Inr cs \<Rightarrow> Inr (r\<lparr>cells := cs\<rparr>))"

subsection \<open>The table locator\<close>

text \<open>\<^verbatim>\<open>_get_table\<close>: the table of the first shape, in the slide's order, that has one.\<close>

fun get_table_shapes :: "shape list \<Rightarrow> error + table" where
  "get_table_shapes [] = Inl DataSetError"
| "get_table_shapes (s # ss) =
     (case shape_table s of Some t \<Rightarrow> Inr t | None \<Rightarrow> get_table_shapes ss)"

definition get_table :: "slide \<Rightarrow> error + table" where
  "get_table sl = get_table_shapes (shapes sl)"

subsection \<open>Documents and the file system\<close>

text \<open>
  Relationship ids (\<^verbatim>\<open>rId7\<close>) are opaque keys, modelled by numbers. A presentation is
  its slide id list (\<^verbatim>\<open>prs.slides._sldIdLst\<close>, each entry carrying the relationship id
  of its slide) and the relationships of its package part.
\<close>

type_synonym rId = nat

record presentation =
  sldIdLst :: "rId list"
  rels :: "rId \<rightharpoonup> slide"

type_synonym filesystem = "string \<rightharpoonup> presentation"

text \<open>\<^verbatim>\<open>Presentation(path)\<close> for a path given as a string.\<close>

definition Presentation :: "string \<Rightarrow> filesystem \<Rightarrow> error + presentation" where
  "Presentation path fs =
     (case fs path of None \<Rightarrow> Inl PackageNotFoundError | Some prs \<Rightarrow> Inr prs)"

text \<open>\<^verbatim>\<open>part.drop_rel(rId)\<close>, for a relationship that one slide id refers to.\<close>

definition drop_rel :: "rId \<Rightarrow> presentation \<Rightarrow> presentation" where
  "drop_rel r prs = prs\<lparr>rels := (rels prs)(r := None)\<rparr>"

text \<open>Iterating \<^verbatim>\<open>prs.slides\<close>: the slide related to each slide id, in order.\<close>

fun related_slides :: "(rId \<rightharpoonup> slide) \<Rightarrow> rId list \<Rightarrow> error + slide list" where
  "related_slides rl [] = Inr []"
| "related_slides rl (r # rs) =
     (case rl r of
        None \<Rightarrow> Inl KeyError
      | Some sl \<Rightarrow>
         (case related_slides rl rs of
            Inl e \<Rightarrow> Inl e
          | Inr sls \<Rightarrow> Inr (sl # sls)))"

definition slides :: "presentation \<Rightarrow> error + slide list" where
  "slides prs = related_slides (rels prs) (sldIdLst prs)"

text \<open>Python indexing and deletion by index; negative indices count from the end.\<close>

definition py_index :: "nat \<Rightarrow> int \<Rightarrow> nat option" where
  "py_index n i =
     (if 0 \<le> i \<and> i < int n then Some (nat i)
      else if - int n \<le> i \<and> i < 0 then Some (nat (int n + i))
      else None)"

definition getitem :: "'a list \<Rightarrow> int \<Rightarrow> error + 'a" where
  "getitem xs i =
     (case py_index (length xs) i of None \<Rightarrow> Inl IndexError | Some j \<Rightarrow> Inr (xs ! j))"

definition delitem :: "'a list \<Rightarrow> int \<Rightarrow> error + 'a list" where
  "delitem xs i =
     (case py_index (length xs) i of
        None \<Rightarrow> Inl IndexError
      | Some j \<Rightarrow> Inr (take j xs @ drop (Suc j) xs))"

subsection \<open>Options\<close>

text \<open>The values an option can hold, and Python's truth test on them.\<close>

datatype pyval = VNone | VBool bool | VInt int | VStr string

fun truthy :: "pyval \<Rightarrow> bool" where
  "truthy VNone = False"
| "truthy (VBool b) = b"
| "truthy (VInt i) = (i \<noteq> 0)"
| "truthy (VStr s) = (s \<noteq> [])"

type_synonym kwargs = "string \<rightharpoonup> pyval"

text \<open>
  The data-frame library, as the adapter uses it: \<^verbatim>\<open>data.shape\<close>,
  \<^verbatim>\<open>data.to_csv(**kwargs)\<close> returning the text, and \<^verbatim>\<open>pd.read_csv(buffer, **kwargs)\<close>.
\<close>

record 'df pandas =
  df_shape :: "'df \<Rightarrow> nat \<times> nat"
  to_csv :: "'df \<Rightarrow> kwargs \<Rightarrow> error + string"
  read_csv :: "string \<Rightarrow> kwargs \<Rightarrow> error + 'df"

subsection \<open>The adapter\<close>

record dataset =
  filepath :: string
  load_args :: kwargs
  save_args :: kwargs

definition default_load_args :: kwargs where
  "default_load_args = [''slide_name'' \<mapsto> VInt 0, ''index_col'' \<mapsto> VInt 0]"

definition default_save_args :: kwargs where
  "default_save_args = [''title'' \<mapsto> VNone]"

text \<open>\<^verbatim>\<open>__init__\<close>: \<^verbatim>\<open>{**defaults, **args}\<close> lets the given options override the defaults.\<close>

definition init :: "string \<Rightarrow> kwargs option \<Rightarrow> kwargs option \<Rightarrow> dataset" where
  "init fp la sa =
     \<lparr>filepath = fp,
      load_args = (case la of Some m \<Rightarrow> default_load_args ++ m | None \<Rightarrow> default_load_args),
      save_args = (case sa of Some m \<Rightarrow> default_save_args ++ m | None \<Rightarrow> default_save_args)\<rparr>"

text \<open>\<^verbatim>\<open>prs.slides[idx]\<close>\<close>

definition slides_getitem :: "presentation \<Rightarrow> pyval \<Rightarrow> error + slide" where
  "slides_getitem prs idx =
     (case idx of
        VInt i \<Rightarrow>
          (case getitem (sldIdLst prs) i of
             Inl e \<Rightarrow> Inl e
           | Inr r \<Rightarrow> (case rels prs r of None \<Rightarrow> Inl KeyError | Some sl \<Rightarrow> Inr sl))
      | VBool b \<Rightarrow>
          (case getitem (sldIdLst prs) (if b then 1 else 0) of
             Inl e \<Rightarrow> Inl e
           | Inr r \<Rightarrow> (case rels prs r of None \<Rightarrow> Inl KeyError | Some sl \<Rightarrow> Inr sl))
      | _ \<Rightarrow> Inl TypeError)"

text \<open>The text written to the buffer of \<^verbatim>\<open>_load\<close>: one line per row of the table.\<close>

definition row_line :: "row \<Rightarrow> string" where
  "row_line r = join '','' (map cell_text (cells r)) @ [CHR 0x0A]"

definition buffer_of :: "table \<Rightarrow> string" where
  "buffer_of t = concat (map row_line (rows t))"

text \<open>\<^verbatim>\<open>_load\<close>\<close>

definition load :: "'df pandas \<Rightarrow> dataset \<Rightarrow> filesystem \<Rightarrow> error + 'df" where
  "load pd ds fs =
     (case Presentation (filepath ds) fs of
        Inl e \<Rightarrow> Inl e
      | Inr prs \<Rightarrow>
         (case load_args ds ''slide_name'' of
            None \<Rightarrow> Inl KeyError
          | Some slide_name \<Rightarrow>
             (let kw = (load_args ds)(''slide_name'' := None)
              in case slides_getitem prs slide_name of
                   Inl e \<Rightarrow> Inl e
                 | Inr sl \<Rightarrow>
                    (case get_table sl of
                       Inl e \<Rightarrow> Inl e
                     | Inr t \<Rightarrow> read_csv pd (buffer_of t) kw))))"

text \<open>
  \<^verbatim>\<open>_get_template\<close>. The bundled template is the document found at this path (relative
  to the module's directory); its content is not part of the sources.
\<close>

definition template_path :: string where
  "template_path = ''templates/Digital_Standard_format_Aug 25.pptx''"

text \<open>
  The deletion loop over \<^verbatim>\<open>reversed(slide_id_list)\<close>: drop the relationship, then delete
  the slide id at the enumerated position.
\<close>

fun drop_slides :: "(nat \<times> rId) list \<Rightarrow> presentation \<Rightarrow> error + presentation" where
  "drop_slides [] prs = Inr prs"
| "drop_slides ((i, r) # rest) prs =
     (let prs1 = drop_rel r prs
      in case delitem (sldIdLst prs1) (int i) of
           Inl e \<Rightarrow> Inl e
         | Inr l \<Rightarrow> drop_slides rest (prs1\<lparr>sldIdLst := l\<rparr>))"

definition get_template :: "filesystem \<Rightarrow> error + presentation" where
  "get_template fs =
     (case Presentation template_path fs of
        Inl e \<Rightarrow> Inl e
      | Inr prs \<Rightarrow>
         (let slide_id_list = enumerate 0 (sldIdLst prs)
          in case delitem slide_id_list 40 of
               Inl e \<Rightarrow> Inl e
             | Inr l \<Rightarrow> drop_slides (rev l) prs))"

subsection \<open>Saving\<close>

text \<open>
  \<^verbatim>\<open>slide.shapes.title.text = title\<close>: the title is the first title placeholder among
  the shapes, and \<^verbatim>\<open>None\<close> when there is none.
\<close>

fun set_title_text :: "shape list \<Rightarrow> string \<Rightarrow> error + shape list" where
  "set_title_text [] t = Inl AttributeError"
| "set_title_text (s # ss) t =
     (if is_title s then Inr (s\<lparr>shape_text := t\<rparr> # ss)
      else case set_title_text ss t of
             Inl e \<Rightarrow> Inl e
           | Inr ss' \<Rightarrow> Inr (s # ss'))"

definition set_title :: "slide \<Rightarrow> pyval \<Rightarrow> error + slide" where
  "set_title sl title =
     (case title of
        VNone \<Rightarrow> Inr sl
      | VStr t \<Rightarrow>
         (case set_title_text (shapes sl) t of
            Inl e \<Rightarrow> Inl e
          | Inr ss \<Rightarrow> Inr (sl\<lparr>shapes := ss\<rparr>))
      | _ \<Rightarrow> (if list_ex is_title (shapes sl) then Inl TypeError else Inl AttributeError))"

text \<open>
  \<^verbatim>\<open>slide.shapes.add_table(rows, cols, left, top, width, height)\<close>: a grid of new
  cells, each with one empty paragraph, no explicit fill and the default margins.
\<close>

definition new_cell :: cell where
  "new_cell = \<lparr>cell_fill = NoFill, margin_bottom = 45720, margin_left = 91440,
               margin_right = 91440, margin_top = 45720, paragraphs = [[]]\<rparr>"

definition add_table :: "nat \<Rightarrow> nat \<Rightarrow> int \<Rightarrow> int \<Rightarrow> int \<Rightarrow> int \<Rightarrow> table" where
  "add_table nr nc l t w h =
     \<lparr>frame_left = l, frame_top = t, frame_width = w, frame_height = h,
      columns = replicate nc (w div int nc),
      rows = replicate nr \<lparr>row_height = h div int nr, cells = replicate nc new_cell\<rparr>\<rparr>"

text \<open>
  The new graphic frame is appended to the shapes, moved to just after the old frame
  (\<^verbatim>\<open>addnext\<close>), and the old frame is removed: the new frame ends up in the place of the
  first shape that has a table, which is the one \<^verbatim>\<open>_get_table\<close> found.
\<close>

fun replace_table_shape :: "shape list \<Rightarrow> shape \<Rightarrow> shape list" where
  "replace_table_shape [] n = []"
| "replace_table_shape (s # ss) n =
     (if has_table s then n # ss else s # replace_table_shape ss n)"

text \<open>
  \<^verbatim>\<open>for (row, line), band in zip(rows_and_lines, cycle(bands))\<close>: each pair is formatted
  with the band at the front, and the bands rotate.
\<close>

fun format_banded :: "cell list \<Rightarrow> (row \<times> string) list \<Rightarrow> error + row list" where
  "format_banded bands [] = Inr []"
| "format_banded bands ((r, line) # rest) =
     (case format_cells r line (hd bands) of
        Inl e \<Rightarrow> Inl e
      | Inr r' \<Rightarrow>
         (case format_banded (rotate1 bands) rest of
            Inl e \<Rightarrow> Inl e
          | Inr rs \<Rightarrow> Inr (r' # rs)))"

text \<open>
  Lines 213 to 222 of \<^verbatim>\<open>_save\<close>: the rows of the new table paired with the lines of
  the text, the first pair formatted like the second cell of the header row, the others
  like the first cells of the two data rows in turn. The result is the rows of the new
  table afterwards; rows without a line stay as they were created.
\<close>

definition fill_rows :: "row list \<Rightarrow> string list \<Rightarrow> row \<Rightarrow> row \<Rightarrow> row \<Rightarrow> error + row list" where
  "fill_rows new_rows lines header_row first_data_row second_data_row =
     (case zip new_rows lines of
        [] \<Rightarrow> Inl StopIteration
      | (r0, line0) # rows_and_lines \<Rightarrow>
         (case getitem (cells header_row) 1 of
            Inl e \<Rightarrow> Inl e
          | Inr like \<Rightarrow>
             (case format_cells r0 line0 like of
                Inl e \<Rightarrow> Inl e
              | Inr r0' \<Rightarrow>
                 (case getitem (cells first_data_row) 0 of
                    Inl e \<Rightarrow> Inl e
                  | Inr band1 \<Rightarrow>
                     (case getitem (cells second_data_row) 0 of
                        Inl e \<Rightarrow> Inl e
                      | Inr band2 \<Rightarrow>
                         (case format_banded [band1, band2] rows_and_lines of
                            Inl e \<Rightarrow> Inl e
                          | Inr rs \<Rightarrow>
                              Inr (r0' # rs @ drop (Suc (length rows_and_lines)) new_rows)))))))"

text \<open>
  \<^verbatim>\<open>_save\<close> from the template to the finished slide (lines 187 to 222): everything
  between the assertion and \<^verbatim>\<open>prs.save\<close>. The new table is filled in place in the
  source; here its rows are computed first and the frame is put on the slide with them.
\<close>

definition build_slide :: "'df pandas \<Rightarrow> kwargs \<Rightarrow> 'df \<Rightarrow> slide \<Rightarrow> error + slide" where
  "build_slide pd args data sl0 =
     (case args ''title'' of
        None \<Rightarrow> Inl KeyError
      | Some title \<Rightarrow>
         (let kw = args(''title'' := None)
          in case set_title sl0 title of
               Inl e \<Rightarrow> Inl e
             | Inr sl \<Rightarrow>
                (case get_table sl of
                   Inl e \<Rightarrow> Inl e
                 | Inr old_table \<Rightarrow>
                    (let (nrows, ncols) = df_shape pd data
                     in case rows old_table of
                          header_row # first_data_row # second_data_row # _ \<Rightarrow>
                            (let new_table =
                                   add_table (nrows + 1) (ncols + 1)
                                     (frame_left old_table) (frame_top old_table)
                                     (frame_width old_table)
                                     (int (nrows + 1) * row_height header_row)
                             in case to_csv pd data kw of
                                  Inl e \<Rightarrow> Inl e
                                | Inr txt \<Rightarrow>
                                   (case fill_rows (rows new_table) (splitlines txt)
                                           header_row first_data_row second_data_row of
                                      Inl e \<Rightarrow> Inl e
                                    | Inr rs \<Rightarrow>
                                        Inr (sl\<lparr>shapes :=
                                               replace_table_shape (shapes sl)
                                                 \<lparr>is_title = False, shape_text = [],
                                                  shape_table = Some (new_table\<lparr>rows := rs\<rparr>)\<rparr>\<rparr>)))
                        | _ \<Rightarrow> Inl ValueError))))"

text \<open>
  \<^verbatim>\<open>_save\<close>: the assertion on the \<^verbatim>\<open>index\<close> option, the template with its single
  slide (\<^verbatim>\<open>[slide] = prs.slides\<close>), the slide rebuilt, and the document written to the
  target path as the last step. A failure leaves the file system as it was.
\<close>

definition save :: "'df pandas \<Rightarrow> dataset \<Rightarrow> 'df \<Rightarrow> filesystem \<Rightarrow> (error + unit) \<times> filesystem" where
  "save pd ds data fs =
     (if \<not> truthy (case save_args ds ''index'' of None \<Rightarrow> VBool True | Some v \<Rightarrow> v)
      then (Inl AssertionError, fs)
      else case get_template fs of
             Inl e \<Rightarrow> (Inl e, fs)
           | Inr prs \<Rightarrow>
              (case slides prs of
                 Inl e \<Rightarrow> (Inl e, fs)
               | Inr [sl0] \<Rightarrow>
                  (case build_slide pd (save_args ds) data sl0 of
                     Inl e \<Rightarrow> (Inl e, fs)
                   | Inr sl \<Rightarrow>
                       (Inr (),
                        fs(filepath ds \<mapsto> prs\<lparr>rels := (rels prs)(hd (sldIdLst prs) \<mapsto> sl)\<rparr>)))
               | Inr _ \<Rightarrow> (Inl ValueError, fs)))"

subsection \<open>Conditions on templates and on the serialised text\<close>


text \<open>The first paragraph of a cell has no run (or the cell has no paragraph at all).\<close>

definition no_first_run :: "cell \<Rightarrow> bool" where
  "no_first_run like = (case paragraphs like of [] \<Rightarrow> True | p # _ \<Rightarrow> p = [])"



subsection \<open>A text data frame\<close>

text \<open>
  A data frame whose labels and values are texts: the index labels, the column labels and
  the rows of values.
\<close>

record frame =
  frame_index :: "string list"
  frame_columns :: "string list"
  frame_rows :: "string list list"

text \<open>
  Modelled from the spec: the data-frame library's \<^verbatim>\<open>to_csv\<close> and \<^verbatim>\<open>read_csv\<close> are
  not part of the sources. The text intermediate format is the one of section 6 of the
  specification: comma-delimited, one row per line, no quoting or escaping; the first line
  holds the (empty) index name and the column labels, and column 0 of every other line is
  the index label.
\<close>

definition frame_text :: "frame \<Rightarrow> string" where
  "frame_text f =
     concat (map (\<lambda>l. l @ [CHR 0x0A])
       (join '','' ([] # frame_columns f) #
        map (\<lambda>(i, r). join '','' (i # r)) (zip (frame_index f) (frame_rows f))))"

definition parse_frame :: "string \<Rightarrow> error + frame" where
  "parse_frame txt =
     (case splitlines txt of
        [] \<Rightarrow> Inl PandasError
      | h # ls \<Rightarrow>
          Inr \<lparr>frame_index = map (\<lambda>l. hd (split CHR '','' l)) ls,
               frame_columns = tl (split CHR '','' h),
               frame_rows = map (\<lambda>l. tl (split CHR '','' l)) ls\<rparr>)"

definition text_pandas :: "frame pandas" where
  "text_pandas =
     \<lparr>df_shape = (\<lambda>f. (length (frame_index f), length (frame_columns f))),
      to_csv = (\<lambda>f kw. Inr (frame_text f)),
      read_csv = (\<lambda>txt kw. parse_frame txt)\<rparr>"

text \<open>
  A stand-in for the data-frame library whose \<^verbatim>\<open>read_csv\<close> returns the arguments it
  was called with, to observe what \<^verbatim>\<open>_load\<close> passes.
\<close>

definition recording_pandas :: "(string \<times> kwargs) pandas" where
  "recording_pandas =
     \<lparr>df_shape = (\<lambda>d. (0, 0)),
      to_csv = (\<lambda>d kw. Inl PandasError),
      read_csv = (\<lambda>txt kw. Inr (txt, kw))\<rparr>"



subsection \<open>A small template for concrete runs\<close>

definition example_cell :: "fill \<Rightarrow> string \<Rightarrow> cell" where
  "example_cell f t =
     \<lparr>cell_fill = f, margin_bottom = 10, margin_left = 20, margin_right = 30, margin_top = 40,
      paragraphs =
        [[\<lparr>run_text = t,
           run_font = \<lparr>font_name = Some ''Arial'', font_size = Some 1200,
                        font_bold = Some True, font_italic = None, theme_color = 13\<rparr>\<rparr>]]\<rparr>"

definition example_table :: table where
  "example_table =
     \<lparr>frame_left = 100, frame_top = 200, frame_width = 3000, frame_height = 900,
      columns = [1500, 1500],
      rows =
        [\<lparr>row_height = 300,
          cells = [(example_cell Background [])\<lparr>paragraphs := [[]]\<rparr>,
                   example_cell (Solid (0, 0, 128)) ''Header'']\<rparr>,
         \<lparr>row_height = 300,
          cells = [example_cell Background ''a'', example_cell Background ''1'']\<rparr>,
         \<lparr>row_height = 300,
          cells = [example_cell (Solid (240, 240, 240)) ''b'',
                   example_cell (Solid (240, 240, 240)) ''2'']\<rparr>]\<rparr>"

definition example_slide :: slide where
  "example_slide =
     \<lparr>shapes =
        [\<lparr>is_title = True, shape_text = ''Table'', shape_table = None\<rparr>,
         \<lparr>is_title = False, shape_text = [], shape_table = Some example_table\<rparr>]\<rparr>"

text \<open>A slide with a title and no table.\<close>

definition text_slide :: slide where
  "text_slide = \<lparr>shapes = [\<lparr>is_title = True, shape_text = ''Agenda'', shape_table = None\<rparr>]\<rparr>"

text \<open>Forty-two slides; the one at position 40 holds the table.\<close>

definition example_template :: presentation where
  "example_template =
     \<lparr>sldIdLst = [0..<42],
      rels = (\<lambda>r. if r = 40 then Some example_slide
                   else if r < 42 then Some text_slide else None)\<rparr>"

definition example_fs :: filesystem where
  "example_fs = [template_path \<mapsto> example_template]"

definition example_frame :: frame where
  "example_frame =
     \<lparr>frame_index = [''0'', ''1'', ''2''],
      frame_columns = [''a'', ''b''],
      frame_rows = [[''x'', ''1''], [''y'', ''2''], [''z'', ''3'']]\<rparr>"

definition empty_frame :: frame where
  "empty_frame = \<lparr>frame_index = [], frame_columns = [''a'', ''b''], frame_rows = []\<rparr>"



text \<open>A template that holds no table at all.\<close>

definition tableless_fs :: filesystem where
  "tableless_fs =
     [template_path \<mapsto>
        \<lparr>sldIdLst = [0..<42], rels = (\<lambda>r. if r < 42 then Some text_slide else None)\<rparr>]"


text \<open>A template whose header row has a single cell.\<close>

definition narrow_header_fs :: filesystem where
  "narrow_header_fs =
     [template_path \<mapsto>
        \<lparr>sldIdLst = [0..<42],
         rels = (\<lambda>r. if r = 40
                      then Some \<lparr>shapes =
                             [\<lparr>is_title = False, shape_text = [],
                               shape_table =
                                 Some (example_table\<lparr>rows :=
                                         (hd (rows example_table))\<lparr>cells := [example_cell Background ''h'']\<rparr> #
                                         tl (rows example_table)\<rparr>)\<rparr>]\<rparr>
                      else if r < 42 then Some text_slide else None)\<rparr>]"

subsection \<open>Reading a saved document back\<close>

text \<open>
  The table that \<^verbatim>\<open>_load\<close> finds in the document at a path, on the slide at a
  position: the first three steps of \<^verbatim>\<open>_load\<close>.
\<close>

definition table_at :: "filesystem \<Rightarrow> string \<Rightarrow> int \<Rightarrow> error + table" where
  "table_at fs path i =
     (case Presentation path fs of
        Inl e \<Rightarrow> Inl e
      | Inr prs \<Rightarrow>
         (case slides_getitem prs (VInt i) of
            Inl e \<Rightarrow> Inl e
          | Inr sl \<Rightarrow> get_table sl))"

text \<open>A row of the new table as \<^verbatim>\<open>add_table\<close> creates it.\<close>

definition blank_row :: "int \<Rightarrow> nat \<Rightarrow> row" where
  "blank_row h nc = \<lparr>row_height = h, cells = replicate nc new_cell\<rparr>"

section \<open>Properties\<close>

subsection \<open>The assertion on the index option\<close>

text \<open>
  C5. Saving with the \<^verbatim>\<open>index\<close> option explicitly set to \<^verbatim>\<open>False\<close> fails with the
  assertion error, whatever the other options, the data and the file system are: the
  result does not depend on the template (which need not even exist), and the file
  system is returned unchanged, so that nothing has been opened, built or written.
\<close>

theorem save_index_disabled:
  "save pd (init fp la (Some (sa(''index'' \<mapsto> VBool False)))) data fs = (Inl AssertionError, fs)"
  by (simp add: save_def init_def)

theorem save_index_disabled_witness:
  "save text_pandas (init ''out.pptx'' None (Some [''index'' \<mapsto> VBool False]))
     example_frame Map.empty = (Inl AssertionError, Map.empty)"
  using save_index_disabled [of text_pandas "''out.pptx''" None Map.empty example_frame Map.empty]
  by simp

subsection \<open>The table locator\<close>

lemma get_table_shapes_find:
  "get_table_shapes ss =
     (case List.find has_table ss of
        None \<Rightarrow> Inl DataSetError
      | Some s \<Rightarrow> Inr (the (shape_table s)))"
  by (induction ss) (auto simp: has_table_def split: option.splits)

lemma set_title_text_tables:
  "set_title_text ss t = Inr ss' \<Longrightarrow> map shape_table ss' = map shape_table ss"
  by (induction ss arbitrary: ss') (auto split: if_splits sum.splits)

lemma get_table_shapes_cong:
  "map shape_table ss' = map shape_table ss \<Longrightarrow> get_table_shapes ss' = get_table_shapes ss"
proof (induction ss arbitrary: ss')
  case Nil
  then show ?case by simp
next
  case (Cons s ss)
  then obtain s' rest where eq: "ss' = s' # rest" by (cases ss') auto
  from Cons.prems eq have "shape_table s' = shape_table s" and "map shape_table rest = map shape_table ss"
    by simp_all
  with Cons.IH[of rest] eq show ?case by (simp split: option.splits)
qed

lemma set_title_get_table:
  assumes "set_title sl0 title = Inr sl"
  shows "get_table sl = get_table sl0"
proof (cases title)
  case VNone
  with assms show ?thesis by (simp add: set_title_def)
next
  case (VStr t)
  with assms obtain ss where ss: "set_title_text (shapes sl0) t = Inr ss" and sl: "sl = sl0\<lparr>shapes := ss\<rparr>"
    by (auto simp: set_title_def split: sum.splits)
  from ss have "map shape_table ss = map shape_table (shapes sl0)"
    by (rule set_title_text_tables)
  then have "get_table_shapes ss = get_table_shapes (shapes sl0)"
    by (rule get_table_shapes_cong)
  with sl show ?thesis by (simp add: get_table_def)
next
  case (VBool b)
  with assms show ?thesis by (simp add: set_title_def split: if_splits)
next
  case (VInt i)
  with assms show ?thesis by (simp add: set_title_def split: if_splits)
qed

lemma load_no_table:
  assumes "Presentation (filepath ds) fs = Inr prs"
    and "load_args ds ''slide_name'' = Some i"
    and "slides_getitem prs i = Inr sl"
    and "List.find has_table (shapes sl) = None"
  shows "load pd ds fs = Inl DataSetError"
  using assms by (simp add: load_def get_table_def get_table_shapes_find)

lemma save_after_template:
  assumes "truthy (case save_args ds ''index'' of None \<Rightarrow> VBool True | Some v \<Rightarrow> v)"
    and "get_template fs = Inr prs"
    and "slides prs = Inr [sl0]"
  shows "save pd ds data fs =
     (case build_slide pd (save_args ds) data sl0 of
        Inl e \<Rightarrow> (Inl e, fs)
      | Inr sl \<Rightarrow>
          (Inr (), fs(filepath ds \<mapsto> prs\<lparr>rels := (rels prs)(hd (sldIdLst prs) \<mapsto> sl)\<rparr>)))"
  using assms by (simp add: save_def)

lemma build_slide_no_table:
  assumes "args ''title'' = Some title"
    and "set_title sl0 title = Inr sl"
    and "get_table sl0 = Inl e"
  shows "build_slide pd args data sl0 = Inl e"
  using assms set_title_get_table[OF assms(2)] by (simp add: build_slide_def)

lemma not_isl_collapse: "\<not> isl x \<Longrightarrow> x = Inr (projr x)"
  by (cases x) auto

text \<open>
  C4. \<^verbatim>\<open>_get_table\<close> returns the table of the first shape, in the order of the
  slide's shapes, whose \<^verbatim>\<open>has_table\<close> check succeeds, and raises the domain error
  when no shape has one. Loading from a slide without a table and saving onto a template
  slide without a table both fail with that same error (saving leaves the file system
  unchanged).
\<close>

theorem table_locator:
  "get_table sl =
     (case List.find has_table (shapes sl) of
        None \<Rightarrow> Inl DataSetError
      | Some s \<Rightarrow> Inr (the (shape_table s))) \<and>
   (Presentation (filepath ds) fs = Inr prs \<and> load_args ds ''slide_name'' = Some i \<and>
    slides_getitem prs i = Inr sl1 \<and> List.find has_table (shapes sl1) = None
      \<longrightarrow> load pd ds fs = Inl DataSetError) \<and>
   (truthy (case save_args ds' ''index'' of None \<Rightarrow> VBool True | Some v \<Rightarrow> v) \<and>
    get_template fs' = Inr tp \<and> slides tp = Inr [sl0] \<and>
    save_args ds' ''title'' = Some title \<and> set_title sl0 title = Inr sl2 \<and>
    List.find has_table (shapes sl0) = None
      \<longrightarrow> save pd ds' data fs' = (Inl DataSetError, fs'))"
proof (intro conjI impI)
  show "get_table sl =
     (case List.find has_table (shapes sl) of
        None \<Rightarrow> Inl DataSetError
      | Some s \<Rightarrow> Inr (the (shape_table s)))"
    by (simp add: get_table_def get_table_shapes_find)
next
  assume "Presentation (filepath ds) fs = Inr prs \<and> load_args ds ''slide_name'' = Some i \<and>
    slides_getitem prs i = Inr sl1 \<and> List.find has_table (shapes sl1) = None"
  then show "load pd ds fs = Inl DataSetError"
    by (simp add: load_no_table)
next
  assume a: "truthy (case save_args ds' ''index'' of None \<Rightarrow> VBool True | Some v \<Rightarrow> v) \<and>
    get_template fs' = Inr tp \<and> slides tp = Inr [sl0] \<and>
    save_args ds' ''title'' = Some title \<and> set_title sl0 title = Inr sl2 \<and>
    List.find has_table (shapes sl0) = None"
  then have "get_table sl0 = Inl DataSetError"
    by (simp add: get_table_def get_table_shapes_find)
  with a have "build_slide pd (save_args ds') data sl0 = Inl DataSetError"
    by (simp add: build_slide_no_table)
  with a show "save pd ds' data fs' = (Inl DataSetError, fs')"
    by (simp add: save_after_template)
qed

theorem table_locator_witness:
  "get_table example_slide = Inr example_table \<and>
   load text_pandas (init template_path None None) example_fs = Inl DataSetError \<and>
   save text_pandas (init ''out.pptx'' None None) example_frame tableless_fs
     = (Inl DataSetError, tableless_fs)"
proof -
  let ?ds = "init template_path None None"
  let ?ds' = "init ''out.pptx'' None None"
  let ?tp = "projr (get_template tableless_fs)"
  have 1: "Presentation (filepath ?ds) example_fs = Inr example_template"
    by (simp add: Presentation_def init_def example_fs_def)
  have 2: "load_args ?ds ''slide_name'' = Some (VInt 0)"
    by (simp add: init_def default_load_args_def)
  have 3: "slides_getitem example_template (VInt 0) = Inr text_slide"
    by code_simp
  have 4: "List.find has_table (shapes text_slide) = None"
    by code_simp
  have 5: "truthy (case save_args ?ds' ''index'' of None \<Rightarrow> VBool True | Some v \<Rightarrow> v)"
    by (simp add: init_def default_save_args_def)
  have "\<not> isl (get_template tableless_fs)"
    by code_simp
  then have 6: "get_template tableless_fs = Inr ?tp"
    by (rule not_isl_collapse)
  have 7: "slides ?tp = Inr [text_slide]"
    by code_simp
  have 8: "save_args ?ds' ''title'' = Some VNone"
    by (simp add: init_def default_save_args_def)
  have 9: "set_title text_slide VNone = Inr text_slide"
    by (simp add: set_title_def)
  have 10: "(case List.find has_table (shapes example_slide) of
        None \<Rightarrow> Inl DataSetError
      | Some s \<Rightarrow> Inr (the (shape_table s))) = Inr example_table"
    by code_simp
  note t = table_locator[of example_slide ?ds example_fs example_template "VInt 0" text_slide
        text_pandas ?ds' tableless_fs ?tp text_slide VNone text_slide example_frame]
  from t 10 have "get_table example_slide = Inr example_table"
    by (simp only:)
  moreover from t 1 2 3 4 have "load text_pandas ?ds example_fs = Inl DataSetError"
    by blast
  moreover from t 4 5 6 7 8 9
  have "save text_pandas ?ds' example_frame tableless_fs = (Inl DataSetError, tableless_fs)"
    by blast
  ultimately show ?thesis by blast
qed

subsection \<open>The options passed on loading\<close>

text \<open>
  \<^verbatim>\<open>_load\<close> calls \<^verbatim>\<open>read_csv\<close> last, so what it does with any data-frame library
  is what it does with the recording one, followed by that library's \<^verbatim>\<open>read_csv\<close>.
\<close>

lemma load_via_recording:
  "load pd ds fs =
     (case load recording_pandas ds fs of
        Inl e \<Rightarrow> Inl e
      | Inr (buf, kw) \<Rightarrow> read_csv pd buf kw)"
  by (simp add: load_def recording_pandas_def split: sum.splits option.splits)

lemma recording_index_col:
  assumes "\<not> isl (load recording_pandas (init fp la sa) fs)"
  shows "snd (projr (load recording_pandas (init fp la sa) fs)) ''index_col'' =
     Some (case (case la of None \<Rightarrow> None | Some m \<Rightarrow> m ''index_col'') of
             None \<Rightarrow> VInt 0
           | Some v \<Rightarrow> v)"
  using assms
  by (auto simp: load_def recording_pandas_def init_def default_load_args_def map_add_def
           split: sum.splits option.splits)

text \<open>
  C7, as amended. The \<^verbatim>\<open>index_col\<close> option that \<^verbatim>\<open>read_csv\<close> receives is the one
  the user supplied in the load options when there is one, and 0 only by default: the
  defaults are merged under the user's options, not over them.
\<close>

theorem load_index_col:
  "load pd (init fp la sa) fs =
     (case load recording_pandas (init fp la sa) fs of
        Inl e \<Rightarrow> Inl e
      | Inr (buf, kw) \<Rightarrow> read_csv pd buf kw) \<and>
   (\<not> isl (load recording_pandas (init fp la sa) fs) \<longrightarrow>
    snd (projr (load recording_pandas (init fp la sa) fs)) ''index_col'' =
      Some (case (case la of None \<Rightarrow> None | Some m \<Rightarrow> m ''index_col'') of
              None \<Rightarrow> VInt 0
            | Some v \<Rightarrow> v))"
  using load_via_recording [of pd "init fp la sa" fs] recording_index_col [of fp la sa fs]
  by blast

theorem load_index_col_witness:
  "\<not> isl (load recording_pandas (init template_path (Some [''slide_name'' \<mapsto> VInt 40]) None)
            example_fs) \<and>
   snd (projr (load recording_pandas
                 (init template_path (Some [''slide_name'' \<mapsto> VInt 40]) None) example_fs))
     ''index_col'' = Some (VInt 0)"
proof -
  let ?la = "Some [''slide_name'' \<mapsto> VInt 40]"
  have 1: "\<not> isl (load recording_pandas (init template_path ?la None) example_fs)"
    by code_simp
  have 2: "(case (case ?la of None \<Rightarrow> None | Some m \<Rightarrow> m ''index_col'') of
              None \<Rightarrow> VInt 0
            | Some v \<Rightarrow> v) = VInt 0"
    by simp
  from load_index_col [of recording_pandas template_path ?la None example_fs] 1
  have "snd (projr (load recording_pandas (init template_path ?la None) example_fs))
     ''index_col'' =
      Some (case (case ?la of None \<Rightarrow> None | Some m \<Rightarrow> m ''index_col'') of
              None \<Rightarrow> VInt 0
            | Some v \<Rightarrow> v)"
    by blast
  with 1 show ?thesis by simp
qed

text \<open>
  C7 as stated fails: with \<^verbatim>\<open>load_args={"slide_name": 40, "index_col": 1}\<close> the
  parser is called with \<^verbatim>\<open>index_col=1\<close>.
\<close>

theorem load_index_col_counterexample:
  "\<not> isl (load recording_pandas
            (init template_path (Some [''slide_name'' \<mapsto> VInt 40, ''index_col'' \<mapsto> VInt 1]) None)
            example_fs) \<and>
   snd (projr (load recording_pandas
            (init template_path (Some [''slide_name'' \<mapsto> VInt 40, ''index_col'' \<mapsto> VInt 1]) None)
            example_fs)) ''index_col'' = Some (VInt 1) \<and>
   VInt 1 \<noteq> VInt 0"
  by code_simp

subsection \<open>The cell formatter\<close>

lemma split_nonempty: "split c s \<noteq> []"
  by (induction s) (auto simp: Let_def)







subsection \<open>The template loader\<close>

lemma delitem_nat:
  "delitem xs (int i) = (if i < length xs then Inr (take i xs @ drop (Suc i) xs) else Inl IndexError)"
  by (simp add: delitem_def py_index_def)

lemma delitem_middle: "delitem (pre @ x # post) (int (length pre)) = Inr (pre @ post)"
  by (simp add: delitem_nat)

lemma drop_slides_append:
  "drop_slides (a @ b) prs =
     (case drop_slides a prs of Inl e \<Rightarrow> Inl e | Inr p \<Rightarrow> drop_slides b p)"
proof (induction a arbitrary: prs)
  case Nil
  show ?case by simp
next
  case (Cons ir a)
  obtain i r where ir: "ir = (i, r)" by (cases ir)
  show ?case
    by (simp add: ir Cons.IH Let_def split: sum.splits)
qed

text \<open>
  Deleting, from the last to the first, a stretch of slide ids at their enumerated
  positions removes exactly that stretch and drops its relationships.
\<close>

lemma drop_slides_stretch:
  "sldIdLst prs = pre @ mid @ post \<Longrightarrow>
   drop_slides (rev (enumerate (length pre) mid)) prs =
     Inr (prs\<lparr>sldIdLst := pre @ post,
              rels := (\<lambda>r. if r \<in> set mid then None else rels prs r)\<rparr>)"
proof (induction mid arbitrary: prs rule: rev_induct)
  case Nil
  then show ?case by simp
next
  case (snoc y mid)
  let ?prs1 = "drop_rel y prs"
  let ?prs2 = "?prs1\<lparr>sldIdLst := pre @ mid @ post\<rparr>"
  have en: "rev (enumerate (length pre) (mid @ [y])) =
      (length pre + length mid, y) # rev (enumerate (length pre) mid)"
    by (simp add: enumerate_append_eq)
  have "sldIdLst ?prs1 = (pre @ mid) @ y # post"
    using snoc.prems by (simp add: drop_rel_def)
  then have del: "delitem (sldIdLst ?prs1) (int (length pre + length mid)) = Inr (pre @ mid @ post)"
    using delitem_middle [of "pre @ mid" y post] by simp
  have "sldIdLst ?prs2 = pre @ mid @ post" by simp
  from snoc.IH [OF this]
  have "drop_slides (rev (enumerate (length pre) mid)) ?prs2 =
     Inr (?prs2\<lparr>sldIdLst := pre @ post,
              rels := (\<lambda>r. if r \<in> set mid then None else rels ?prs2 r)\<rparr>)" .
  moreover have "?prs2\<lparr>sldIdLst := pre @ post,
              rels := (\<lambda>r. if r \<in> set mid then None else rels ?prs2 r)\<rparr> =
      prs\<lparr>sldIdLst := pre @ post,
              rels := (\<lambda>r. if r \<in> set (mid @ [y]) then None else rels prs r)\<rparr>"
    by (auto simp: drop_rel_def fun_eq_iff)
  ultimately show ?case
    using en del by (simp add: Let_def)
qed

lemma get_template_result:
  assumes tp: "fs template_path = Some tp" and len: "40 < length (sldIdLst tp)"
  shows "get_template fs =
           drop_slides (rev (take 40 (enumerate 0 (sldIdLst tp)) @ drop 41 (enumerate 0 (sldIdLst tp)))) tp"
    and "get_template fs =
           Inr \<lparr>sldIdLst = [sldIdLst tp ! 40],
                rels = (\<lambda>r. if r \<in> set (take 40 (sldIdLst tp)) \<union> set (drop 41 (sldIdLst tp))
                           then None else rels tp r)\<rparr>"
proof -
  let ?ids = "sldIdLst tp"
  let ?A = "take 40 ?ids" and ?x = "?ids ! 40" and ?B = "drop 41 ?ids"
  let ?E = "enumerate 0 ?ids"
  have ids: "?ids = ?A @ ?x # ?B"
    using len id_take_nth_drop [of 40 ?ids] by simp
  have lenA: "length ?A = 40" using len by simp
  have "?E = enumerate 0 (?A @ ?x # ?B)" using ids by simp
  then have E: "?E = enumerate 0 ?A @ (40, ?x) # enumerate 41 ?B"
    using lenA by (simp add: enumerate_append_eq)
  have del: "delitem ?E 40 = Inr (take 40 ?E @ drop 41 ?E)"
    using len delitem_nat [of ?E 40] by simp
  show g: "get_template fs = drop_slides (rev (take 40 ?E @ drop 41 ?E)) tp"
    using tp del by (simp add: get_template_def Presentation_def Let_def)
  have "take 40 ?E = enumerate 0 ?A" "drop 41 ?E = enumerate 41 ?B"
    using lenA by (simp_all add: E)
  then have l: "rev (take 40 ?E @ drop 41 ?E) = rev (enumerate 41 ?B) @ rev (enumerate 0 ?A)"
    by simp
  let ?p1 = "tp\<lparr>sldIdLst := (?A @ [?x]) @ [],
                rels := (\<lambda>r. if r \<in> set ?B then None else rels tp r)\<rparr>"
  have "sldIdLst tp = (?A @ [?x]) @ ?B @ []" using ids by simp
  from drop_slides_stretch [OF this]
  have s1: "drop_slides (rev (enumerate 41 ?B)) tp = Inr ?p1"
    using lenA by simp
  have "sldIdLst ?p1 = [] @ ?A @ [?x]" by simp
  from drop_slides_stretch [OF this]
  have s2: "drop_slides (rev (enumerate 0 ?A)) ?p1 =
      Inr (?p1\<lparr>sldIdLst := [] @ [?x],
               rels := (\<lambda>r. if r \<in> set ?A then None else rels ?p1 r)\<rparr>)"
    by simp
  have "drop_slides (rev (take 40 ?E @ drop 41 ?E)) tp =
      Inr (?p1\<lparr>sldIdLst := [] @ [?x],
               rels := (\<lambda>r. if r \<in> set ?A then None else rels ?p1 r)\<rparr>)"
    unfolding l drop_slides_append s1 using s2 by simp
  moreover have "?p1\<lparr>sldIdLst := [] @ [?x],
               rels := (\<lambda>r. if r \<in> set ?A then None else rels ?p1 r)\<rparr> =
      \<lparr>sldIdLst = [?x],
       rels = (\<lambda>r. if r \<in> set ?A \<union> set ?B then None else rels tp r)\<rparr>"
    by (auto simp: fun_eq_iff)
  ultimately show "get_template fs =
           Inr \<lparr>sldIdLst = [?x],
                rels = (\<lambda>r. if r \<in> set ?A \<union> set ?B then None else rels tp r)\<rparr>"
    using g by simp
qed

lemma enumerate_indices_without:
  assumes "40 < length ids"
  shows "map fst (rev (take 40 (enumerate 0 ids) @ drop 41 (enumerate 0 ids))) =
           rev ([0..<40] @ [41..<length ids])"
proof -
  have "map fst (take 40 (enumerate 0 ids)) = [0..<40]"
    using assms by (simp add: take_map [symmetric])
  moreover have "map fst (drop 41 (enumerate 0 ids)) = [41..<length ids]"
    by (simp add: drop_map [symmetric])
  ultimately show ?thesis by (simp add: rev_map [symmetric])
qed

lemma distinct_others:
  assumes "40 < length ids" and "distinct ids"
  shows "r \<in> set (take 40 ids) \<union> set (drop 41 ids) \<longleftrightarrow> r \<in> set ids \<and> r \<noteq> ids ! 40"
proof -
  have ids: "ids = take 40 ids @ ids ! 40 # drop 41 ids"
    using assms(1) id_take_nth_drop [of 40 ids] by simp
  from assms(2) have "distinct (take 40 ids @ ids ! 40 # drop 41 ids)"
    using ids by simp
  then have "ids ! 40 \<notin> set (take 40 ids) \<union> set (drop 41 ids)"
    by auto
  moreover have "set ids = set (take 40 ids) \<union> {ids ! 40} \<union> set (drop 41 ids)"
    using arg_cong [OF ids, of set] by simp
  ultimately show ?thesis by auto
qed

text \<open>
  C6. For a template with more than 40 slides (and distinct relationship ids),
  \<^verbatim>\<open>_get_template\<close> runs the deletion loop over the positions other than 40 from the
  last to the first; no deletion falls out of range; the relationship of every removed
  slide id is dropped; and the resulting document has exactly one slide, the one that was
  at position 40.
\<close>

theorem get_template_prunes:
  assumes "fs template_path = Some tp"
    and "40 < length (sldIdLst tp)"
    and "distinct (sldIdLst tp)"
    and "rels tp (sldIdLst tp ! 40) = Some s"
  shows "let ids = sldIdLst tp;
             l = take 40 (enumerate 0 ids) @ drop 41 (enumerate 0 ids);
             pruned = \<lparr>sldIdLst = [ids ! 40],
                       rels = (\<lambda>r. if r \<in> set ids \<and> r \<noteq> ids ! 40 then None else rels tp r)\<rparr>
         in get_template fs = drop_slides (rev l) tp \<and>
            map fst (rev l) = rev ([0..<40] @ [41..<length ids]) \<and>
            get_template fs = Inr pruned \<and>
            slides pruned = Inr [s]"
proof -
  let ?ids = "sldIdLst tp"
  have eq: "(\<lambda>r. if r \<in> set (take 40 ?ids) \<union> set (drop 41 ?ids) then None else rels tp r) =
      (\<lambda>r. if r \<in> set ?ids \<and> r \<noteq> ?ids ! 40 then None else rels tp r)"
    using distinct_others [OF assms(2,3)] by (simp add: fun_eq_iff)
  have "slides \<lparr>sldIdLst = [?ids ! 40],
                rels = (\<lambda>r. if r \<in> set ?ids \<and> r \<noteq> ?ids ! 40 then None else rels tp r)\<rparr> = Inr [s]"
    using assms(4) by (simp add: slides_def)
  then show ?thesis
    using get_template_result [of fs tp, OF assms(1,2)] enumerate_indices_without [OF assms(2)]
    unfolding eq by (simp add: Let_def)
qed

theorem get_template_prunes_witness:
  "example_fs template_path = Some example_template \<and>
   40 < length (sldIdLst example_template) \<and>
   distinct (sldIdLst example_template) \<and>
   rels example_template (sldIdLst example_template ! 40) = Some example_slide \<and>
   sldIdLst (projr (get_template example_fs)) = [40] \<and>
   slides (projr (get_template example_fs)) = Inr [example_slide]"
proof -
  have 1: "example_fs template_path = Some example_template"
    by (simp add: example_fs_def)
  have 2: "40 < length (sldIdLst example_template)"
    by (simp add: example_template_def)
  have 3: "distinct (sldIdLst example_template)"
    by (simp add: example_template_def)
  have n: "sldIdLst example_template ! 40 = 40"
    by code_simp
  have 4: "rels example_template (sldIdLst example_template ! 40) = Some example_slide"
    unfolding n by (simp add: example_template_def)
  let ?ids = "sldIdLst example_template"
  let ?P = "\<lparr>sldIdLst = [?ids ! 40],
             rels = (\<lambda>r. if r \<in> set ?ids \<and> r \<noteq> ?ids ! 40 then None
                        else rels example_template r)\<rparr>"
  note t = get_template_prunes [of example_fs example_template example_slide, OF 1 2 3 4,
      unfolded Let_def]
  from t have a: "get_template example_fs = Inr ?P" by blast
  from t have b: "slides ?P = Inr [example_slide]" by blast
  from a have p: "projr (get_template example_fs) = ?P" by simp
  have "sldIdLst (projr (get_template example_fs)) = [40] \<and>
        slides (projr (get_template example_fs)) = Inr [example_slide]"
    unfolding p using b n by simp
  with 1 2 3 4 show ?thesis by blast
qed

subsection \<open>Failures of saving that come from the template\<close>




lemma rows_add_table:
  "rows (add_table (Suc r) nc l t w (int (Suc r) * hh)) = replicate (Suc r) (blank_row hh nc)"
proof -
  have "int (Suc r) * hh div int (Suc r) = hh"
    by (rule nonzero_mult_div_cancel_left) simp
  then show ?thesis
    by (simp add: add_table_def blank_row_def del: of_nat_Suc)
qed

text \<open>\<^verbatim>\<open>_save\<close> up to the filling of the new table, for a template that gets that far.\<close>

lemma build_slide_rows:
  assumes "args ''title'' = Some title"
    and "set_title sl0 title = Inr sl"
    and "get_table sl0 = Inr old"
    and "rows old = h # b1 # b2 # others"
    and "df_shape pd data = (r, c)"
    and "to_csv pd data (args(''title'' := None)) = Inr txt"
  shows "build_slide pd args data sl0 =
     (case fill_rows (replicate (Suc r) (blank_row (row_height h) (Suc c))) (splitlines txt) h b1 b2 of
        Inl e \<Rightarrow> Inl e
      | Inr rs \<Rightarrow>
          Inr (sl\<lparr>shapes :=
                 replace_table_shape (shapes sl)
                   \<lparr>is_title = False, shape_text = [],
                    shape_table =
                      Some ((add_table (Suc r) (Suc c) (frame_left old) (frame_top old)
                               (frame_width old) (int (Suc r) * row_height h))\<lparr>rows := rs\<rparr>)\<rparr>\<rparr>))"
proof -
  have "get_table sl = Inr old"
    using set_title_get_table [OF assms(2)] assms(3) by simp
  then show ?thesis
    using assms(1,2,4,5,6)
    by (simp add: build_slide_def Let_def rows_add_table del: of_nat_Suc)
qed

lemma format_cell_no_run:
  assumes "no_first_run like"
  shows "format_cell like c v = Inl IndexError"
  using assms
  by (auto simp: format_cell_def no_first_run_def Let_def split: list.splits)

lemma format_cells_no_run:
  assumes "cells r \<noteq> []" and "no_first_run like"
  shows "format_cells r line like = Inl IndexError"
proof -
  from assms(1) obtain c cs where c: "cells r = c # cs" by (cases "cells r") auto
  obtain v vs where v: "split CHR '','' line = v # vs"
    using split_nonempty [of "CHR '',''" line] by (cases "split CHR '','' line") auto
  show ?thesis
    by (simp add: format_cells_def c v format_cell_no_run [OF assms(2)])
qed

lemma fill_rows_header:
  assumes "lines \<noteq> []"
  shows "fill_rows (replicate (Suc r) (blank_row hh (Suc c))) lines h b1 b2 =
     (case getitem (cells h) 1 of
        Inl e \<Rightarrow> Inl e
      | Inr like \<Rightarrow>
         (case format_cells (blank_row hh (Suc c)) (hd lines) like of
            Inl e \<Rightarrow> Inl e
          | Inr r0' \<Rightarrow>
             (case getitem (cells b1) 0 of
                Inl e \<Rightarrow> Inl e
              | Inr band1 \<Rightarrow>
                 (case getitem (cells b2) 0 of
                    Inl e \<Rightarrow> Inl e
                  | Inr band2 \<Rightarrow>
                     (case format_banded [band1, band2]
                             (zip (replicate r (blank_row hh (Suc c))) (tl lines)) of
                        Inl e \<Rightarrow> Inl e
                      | Inr rs \<Rightarrow>
                          Inr (r0' # rs @
                               drop (length (tl lines)) (replicate r (blank_row hh (Suc c)))))))))"
proof -
  from assms obtain l ls where l: "lines = l # ls" by (cases lines) auto
  show ?thesis
    by (simp add: fill_rows_def l min_def split: sum.splits)
qed

lemma getitem_0: "getitem xs 0 = (case xs of [] \<Rightarrow> Inl IndexError | x # _ \<Rightarrow> Inr x)"
  by (cases xs) (simp_all add: getitem_def py_index_def)

lemma getitem_1: "getitem xs 1 = (if length xs < 2 then Inl IndexError else Inr (xs ! 1))"
  by (cases xs) (auto simp: getitem_def py_index_def)

lemma fill_rows_bad_header:
  assumes "lines \<noteq> []"
    and "length (cells h) < 2 \<or> no_first_run (cells h ! 1)"
  shows "fill_rows (replicate (Suc r) (blank_row hh (Suc c))) lines h b1 b2 = Inl IndexError"
proof (cases "length (cells h) < 2")
  case True
  then show ?thesis
    by (subst fill_rows_header [OF assms(1)]) (simp add: getitem_1)
next
  case False
  with assms(2) have nr: "no_first_run (cells h ! 1)" by simp
  have "cells (blank_row hh (Suc c)) \<noteq> []" by (simp add: blank_row_def)
  then have "format_cells (blank_row hh (Suc c)) (hd lines) (cells h ! 1) = Inl IndexError"
    using nr by (rule format_cells_no_run)
  with False show ?thesis
    by (subst fill_rows_header [OF assms(1)]) (simp add: getitem_1)
qed

lemma fill_rows_header_exemplar:
  assumes "lines \<noteq> []"
    and "fill_rows (replicate (Suc r) (blank_row hh (Suc c))) lines h b1 b2 = Inr rs"
  shows "1 < length (cells h) \<and>
         format_cells (blank_row hh (Suc c)) (hd lines) (cells h ! 1) = Inr (hd rs)"
  using assms(2) unfolding fill_rows_header [OF assms(1)] getitem_1
  by (auto split: sum.splits if_splits)

text \<open>
  C10. The exemplar for the first row of the new table is the cell at index 1 of the
  template's header row, and \<^verbatim>\<open>_format_cells\<close> reads the first run of the first
  paragraph of its exemplar. So formatting a row that has a cell with an exemplar whose
  first paragraph has no run raises \<^verbatim>\<open>IndexError\<close>; and for a template that gets as
  far as the filling of the table (with a text of at least one line), saving raises
  \<^verbatim>\<open>IndexError\<close> and writes nothing when the header row has fewer than two cells or
  the first paragraph of its second cell has no run.
\<close>

theorem save_header_exemplar:
  assumes "truthy (case save_args ds ''index'' of None \<Rightarrow> VBool True | Some v \<Rightarrow> v)"
    and "get_template fs = Inr prs"
    and "slides prs = Inr [sl0]"
    and "save_args ds ''title'' = Some title"
    and "set_title sl0 title = Inr sl"
    and "get_table sl0 = Inr old"
    and "rows old = h # b1 # b2 # others"
    and "df_shape pd data = (r, c)"
    and "to_csv pd data ((save_args ds)(''title'' := None)) = Inr txt"
    and "splitlines txt \<noteq> []"
  shows "(cells rw \<noteq> [] \<and> no_first_run like \<longrightarrow> format_cells rw line like = Inl IndexError) \<and>
         (length (cells h) < 2 \<or> no_first_run (cells h ! 1) \<longrightarrow>
            save pd ds data fs = (Inl IndexError, fs)) \<and>
         (fill_rows (replicate (Suc r) (blank_row (row_height h) (Suc c))) (splitlines txt) h b1 b2
            = Inr rs \<longrightarrow>
            format_cells (blank_row (row_height h) (Suc c)) (hd (splitlines txt)) (cells h ! 1)
              = Inr (hd rs))"
proof (intro conjI impI)
  assume "cells rw \<noteq> [] \<and> no_first_run like"
  then show "format_cells rw line like = Inl IndexError"
    by (simp add: format_cells_no_run)
next
  assume "length (cells h) < 2 \<or> no_first_run (cells h ! 1)"
  with assms(10)
  have "fill_rows (replicate (Suc r) (blank_row (row_height h) (Suc c))) (splitlines txt) h b1 b2
     = Inl IndexError"
    by (rule fill_rows_bad_header)
  then have "build_slide pd (save_args ds) data sl0 = Inl IndexError"
    by (simp add: build_slide_rows [OF assms(4-9)])
  then show "save pd ds data fs = (Inl IndexError, fs)"
    by (simp add: save_after_template [OF assms(1-3)])
next
  assume "fill_rows (replicate (Suc r) (blank_row (row_height h) (Suc c))) (splitlines txt) h b1 b2
            = Inr rs"
  with assms(10)
  show "format_cells (blank_row (row_height h) (Suc c)) (hd (splitlines txt)) (cells h ! 1)
              = Inr (hd rs)"
    using fill_rows_header_exemplar by blast
qed

theorem save_header_exemplar_witness:
  "length (cells (hd (rows (projr (get_table (hd (projr (slides (projr (get_template
       narrow_header_fs)))))))))) < 2 \<and>
   splitlines (frame_text example_frame) \<noteq> [] \<and>
   save text_pandas (init ''out.pptx'' None None) example_frame narrow_header_fs
     = (Inl IndexError, narrow_header_fs) \<and>
   no_first_run (hd (cells (hd (rows example_table)))) \<and>
   format_cells (blank_row 300 2) ''a,b'' (hd (cells (hd (rows example_table)))) = Inl IndexError"
proof -
  let ?ds = "init ''out.pptx'' None None"
  let ?prs = "projr (get_template narrow_header_fs)"
  let ?sl0 = "hd (projr (slides ?prs))"
  let ?old = "projr (get_table ?sl0)"
  let ?h = "hd (rows ?old)" and ?b1 = "rows ?old ! 1" and ?b2 = "rows ?old ! 2"
  let ?like = "hd (cells (hd (rows example_table)))"
  have 1: "truthy (case save_args ?ds ''index'' of None \<Rightarrow> VBool True | Some v \<Rightarrow> v)"
    by (simp add: init_def default_save_args_def)
  have "\<not> isl (get_template narrow_header_fs)" by code_simp
  then have 2: "get_template narrow_header_fs = Inr ?prs" by (rule not_isl_collapse)
  have 3: "slides ?prs = Inr [?sl0]" by code_simp
  have 4: "save_args ?ds ''title'' = Some VNone"
    by (simp add: init_def default_save_args_def)
  have 5: "set_title ?sl0 VNone = Inr ?sl0" by (simp add: set_title_def)
  have "\<not> isl (get_table ?sl0)" by code_simp
  then have 6: "get_table ?sl0 = Inr ?old" by (rule not_isl_collapse)
  have 7: "rows ?old = ?h # ?b1 # ?b2 # drop 3 (rows ?old)" by code_simp
  have 8: "df_shape text_pandas example_frame = (3, 2)" by code_simp
  have 9: "to_csv text_pandas example_frame ((save_args ?ds)(''title'' := None))
      = Inr (frame_text example_frame)"
    by (simp add: text_pandas_def)
  have 10: "splitlines (frame_text example_frame) \<noteq> []" by code_simp
  have 11: "length (cells ?h) < 2" by code_simp
  have 12: "cells (blank_row 300 2) \<noteq> []" by code_simp
  have 13: "no_first_run ?like" by code_simp
  note t = save_header_exemplar [OF 1 2 3 4 5 6 7 8 9 10,
      of "blank_row 300 2" ?like "''a,b''" "[]"]
  from t 11 have a: "save text_pandas ?ds example_frame narrow_header_fs = (Inl IndexError, narrow_header_fs)"
    by blast
  from t 12 13 have b: "format_cells (blank_row 300 2) ''a,b'' ?like = Inl IndexError"
    by blast
  from 10 11 13 a b show ?thesis by blast
qed

subsection \<open>The saved document\<close>

lemma related_slides_length:
  "related_slides rl rs = Inr sls \<Longrightarrow> length sls = length rs"
  by (induction rs arbitrary: sls) (auto split: option.splits sum.splits)

lemma slides_single:
  assumes "slides prs = Inr [sl0]"
  shows "\<exists>rid. sldIdLst prs = [rid] \<and> rels prs rid = Some sl0"
proof -
  from assms have rs: "related_slides (rels prs) (sldIdLst prs) = Inr [sl0]"
    by (simp add: slides_def)
  from related_slides_length [OF rs] obtain rid where rid: "sldIdLst prs = [rid]"
    by (cases "sldIdLst prs") auto
  with rs have "rels prs rid = Some sl0"
    by (auto split: option.splits)
  with rid show ?thesis by blast
qed

lemma get_table_replace:
  "get_table_shapes ss = Inr old \<Longrightarrow>
   get_table_shapes
     (replace_table_shape ss \<lparr>is_title = ti, shape_text = tx, shape_table = Some t\<rparr>) = Inr t"
  by (induction ss) (auto simp: has_table_def split: option.splits)

text \<open>What \<^verbatim>\<open>_load\<close> finds at slide 0 of a document saved by \<^verbatim>\<open>_save\<close>.\<close>

lemma table_at_saved:
  assumes "slides prs = Inr [sl0]"
    and "get_table sl = Inr old"
  shows "table_at
           (fs(path \<mapsto> prs\<lparr>rels := (rels prs)(hd (sldIdLst prs) \<mapsto>
                  sl\<lparr>shapes := replace_table_shape (shapes sl)
                        \<lparr>is_title = ti, shape_text = tx, shape_table = Some t\<rparr>\<rparr>)\<rparr>))
           path 0 = Inr t"
proof -
  from slides_single [OF assms(1)] obtain rid where rid: "sldIdLst prs = [rid]" by blast
  have "get_table_shapes (shapes sl) = Inr old"
    using assms(2) by (simp add: get_table_def)
  from get_table_replace [OF this]
  show ?thesis
    by (simp add: table_at_def Presentation_def slides_getitem_def getitem_0 rid get_table_def)
qed

lemma build_slide_InrD:
  assumes "build_slide pd args data sl0 = Inr slF"
  shows "\<exists>title sl old h b1 b2 others.
           args ''title'' = Some title \<and> set_title sl0 title = Inr sl \<and>
           get_table sl0 = Inr old \<and> rows old = h # b1 # b2 # others"
proof -
  from assms obtain title where t: "args ''title'' = Some title"
    by (auto simp: build_slide_def split: option.splits)
  from assms t obtain sl where sl: "set_title sl0 title = Inr sl"
    by (cases "set_title sl0 title") (auto simp: build_slide_def Let_def)
  from assms t sl obtain old where old: "get_table sl = Inr old"
    by (cases "get_table sl") (auto simp: build_slide_def Let_def)
  from assms t sl old obtain h b1 b2 others where "rows old = h # b1 # b2 # others"
    by (auto simp: build_slide_def Let_def split: prod.splits list.splits)
  moreover have "get_table sl0 = Inr old"
    using set_title_get_table [OF sl] old by simp
  ultimately show ?thesis using t sl by blast
qed

lemma save_InrD:
  assumes "fst (save pd ds data fs) = Inr ()"
  shows "\<exists>prs sl0.
           truthy (case save_args ds ''index'' of None \<Rightarrow> VBool True | Some v \<Rightarrow> v) \<and>
           get_template fs = Inr prs \<and> slides prs = Inr [sl0] \<and>
           \<not> isl (build_slide pd (save_args ds) data sl0)"
proof -
  from assms have idx: "truthy (case save_args ds ''index'' of None \<Rightarrow> VBool True | Some v \<Rightarrow> v)"
    by (auto simp: save_def split: if_splits)
  from assms idx obtain prs where prs: "get_template fs = Inr prs"
    by (cases "get_template fs") (auto simp: save_def)
  from assms idx prs obtain sls where sls: "slides prs = Inr sls"
    by (cases "slides prs") (auto simp: save_def)
  from assms idx prs sls obtain sl0 where sl0: "sls = [sl0]"
    by (auto simp: save_def split: list.splits)
  from assms idx prs sls sl0 have "\<not> isl (build_slide pd (save_args ds) data sl0)"
    by (cases "build_slide pd (save_args ds) data sl0") (auto simp: save_def)
  with idx prs sls sl0 show ?thesis by blast
qed

lemma build_slide_InrD_rows:
  assumes "build_slide pd args data sl0 = Inr slF"
    and "args ''title'' = Some title"
    and "set_title sl0 title = Inr sl"
    and "get_table sl0 = Inr old"
    and "rows old = h # b1 # b2 # others"
    and "df_shape pd data = (r, c)"
  shows "\<exists>txt rs.
           to_csv pd data (args(''title'' := None)) = Inr txt \<and>
           fill_rows (replicate (Suc r) (blank_row (row_height h) (Suc c))) (splitlines txt) h b1 b2
             = Inr rs \<and>
           slF = sl\<lparr>shapes :=
                  replace_table_shape (shapes sl)
                    \<lparr>is_title = False, shape_text = [],
                     shape_table =
                       Some ((add_table (Suc r) (Suc c) (frame_left old) (frame_top old)
                                (frame_width old) (int (Suc r) * row_height h))\<lparr>rows := rs\<rparr>)\<rparr>\<rparr>"
proof -
  have g: "get_table sl = Inr old"
    using set_title_get_table [OF assms(3)] assms(4) by simp
  from assms(1,2,3,5,6) g obtain csv where csv: "to_csv pd data (args(''title'' := None)) = Inr csv"
    by (cases "to_csv pd data (args(''title'' := None))")
       (auto simp: build_slide_def Let_def simp del: of_nat_Suc)
  note b = build_slide_rows [OF assms(2-6) csv]
  from assms(1) obtain rs where
    "fill_rows (replicate (Suc r) (blank_row (row_height h) (Suc c))) (splitlines csv) h b1 b2 = Inr rs"
    unfolding b
    by (cases "fill_rows (replicate (Suc r) (blank_row (row_height h) (Suc c))) (splitlines csv) h b1 b2")
       auto
  with assms(1) csv show ?thesis
    unfolding b by auto
qed

lemma format_pairs_length:
  "format_pairs like cs vs = Inr cs' \<Longrightarrow> length cs' = length cs"
  by (induction like cs vs arbitrary: cs' rule: format_pairs.induct)
     (auto split: sum.splits)

lemma format_cells_length:
  "format_cells rw line like = Inr rw' \<Longrightarrow> length (cells rw') = length (cells rw)"
  by (auto simp: format_cells_def split: sum.splits dest: format_pairs_length)

lemma format_banded_cells:
  "format_banded bands prs = Inr rs \<Longrightarrow> \<forall>p \<in> set prs. length (cells (fst p)) = n \<Longrightarrow>
   length rs = length prs \<and> (\<forall>rw \<in> set rs. length (cells rw) = n)"
proof (induction bands prs arbitrary: rs rule: format_banded.induct)
  case (1 bands)
  then show ?case by simp
next
  case (2 bands r line rest)
  from "2.prems"(1) obtain r' rs' where
    r': "format_cells r line (hd bands) = Inr r'" and
    rs': "format_banded (rotate1 bands) rest = Inr rs'" and
    rs: "rs = r' # rs'"
    by (auto split: sum.splits)
  from "2.IH" [OF r' rs'] "2.prems"(2)
  have "length rs' = length rest \<and> (\<forall>rw \<in> set rs'. length (cells rw) = n)" by simp
  moreover from format_cells_length [OF r'] "2.prems"(2) have "length (cells r') = n" by simp
  ultimately show ?case using rs by simp
qed

lemma fill_rows_lines:
  "fill_rows new_rows lines h b1 b2 = Inr rs \<Longrightarrow> lines \<noteq> []"
  by (auto simp: fill_rows_def)

lemma fill_rows_shape:
  assumes "fill_rows (replicate (Suc r) (blank_row hh (Suc c))) lines h b1 b2 = Inr rs"
  shows "length rs = Suc r \<and> (\<forall>rw \<in> set rs. length (cells rw) = Suc c)"
proof -
  let ?blank = "blank_row hh (Suc c)"
  have ne: "lines \<noteq> []" using assms by (rule fill_rows_lines)
  from assms obtain like r0' band1 band2 rs' where
    r0': "format_cells ?blank (hd lines) like = Inr r0'" and
    rs': "format_banded [band1, band2] (zip (replicate r ?blank) (tl lines)) = Inr rs'" and
    rs: "rs = r0' # rs' @ drop (length (tl lines)) (replicate r ?blank)"
    unfolding fill_rows_header [OF ne]
    by (auto split: sum.splits)
  have "\<forall>p \<in> set (zip (replicate r ?blank) (tl lines)). length (cells (fst p)) = Suc c"
    by (auto simp: blank_row_def dest!: set_zip_leftD)
  from format_banded_cells [OF rs' this]
  have 1: "length rs' = min r (length (tl lines))" and 2: "\<forall>rw \<in> set rs'. length (cells rw) = Suc c"
    by simp_all
  from format_cells_length [OF r0'] have 3: "length (cells r0') = Suc c"
    by (simp add: blank_row_def)
  have 4: "\<forall>rw \<in> set (drop (length (tl lines)) (replicate r ?blank)). length (cells rw) = Suc c"
    by (auto simp: blank_row_def dest!: in_set_dropD)
  from 1 have "length rs = Suc r" unfolding rs by (simp add: min_def)
  moreover from 2 3 4 have "\<forall>rw \<in> set rs. length (cells rw) = Suc c"
    unfolding rs by auto
  ultimately show ?thesis by blast
qed

text \<open>A successful \<^verbatim>\<open>_save\<close>, step by step.\<close>

lemma save_InrE:
  assumes "fst (save pd ds data fs) = Inr ()" and "df_shape pd data = (r, c)"
  obtains prs sl0 title sl old h b1 b2 others csv rs where
    "get_template fs = Inr prs" and "slides prs = Inr [sl0]" and
    "save_args ds ''title'' = Some title" and "set_title sl0 title = Inr sl" and
    "get_table sl0 = Inr old" and "rows old = h # b1 # b2 # others" and
    "to_csv pd data ((save_args ds)(''title'' := None)) = Inr csv" and
    "fill_rows (replicate (Suc r) (blank_row (row_height h) (Suc c))) (splitlines csv) h b1 b2
       = Inr rs" and
    "table_at (snd (save pd ds data fs)) (filepath ds) 0 =
       Inr ((add_table (Suc r) (Suc c) (frame_left old) (frame_top old)
               (frame_width old) (int (Suc r) * row_height h))\<lparr>rows := rs\<rparr>)"
proof -
  from save_InrD [OF assms(1)] obtain prs sl0 where
    idx: "truthy (case save_args ds ''index'' of None \<Rightarrow> VBool True | Some v \<Rightarrow> v)" and
    prs: "get_template fs = Inr prs" and sls: "slides prs = Inr [sl0]" and
    nb: "\<not> isl (build_slide pd (save_args ds) data sl0)"
    by blast
  from nb obtain slF where slF: "build_slide pd (save_args ds) data sl0 = Inr slF"
    by (cases "build_slide pd (save_args ds) data sl0") auto
  from build_slide_InrD [OF slF] obtain title sl old h b1 b2 others where
    ti: "save_args ds ''title'' = Some title" and sl: "set_title sl0 title = Inr sl" and
    old: "get_table sl0 = Inr old" and rw: "rows old = h # b1 # b2 # others"
    by blast
  from build_slide_InrD_rows [OF slF ti sl old rw assms(2)] obtain csv rs where
    csv: "to_csv pd data ((save_args ds)(''title'' := None)) = Inr csv" and
    rs: "fill_rows (replicate (Suc r) (blank_row (row_height h) (Suc c))) (splitlines csv) h b1 b2
             = Inr rs" and
    F: "slF = sl\<lparr>shapes :=
                  replace_table_shape (shapes sl)
                    \<lparr>is_title = False, shape_text = [],
                     shape_table =
                       Some ((add_table (Suc r) (Suc c) (frame_left old) (frame_top old)
                                (frame_width old) (int (Suc r) * row_height h))\<lparr>rows := rs\<rparr>)\<rparr>\<rparr>"
    by blast
  have g: "get_table sl = Inr old"
    using set_title_get_table [OF sl] old by simp
  have "snd (save pd ds data fs) =
      fs(filepath ds \<mapsto> prs\<lparr>rels := (rels prs)(hd (sldIdLst prs) \<mapsto> slF)\<rparr>)"
    by (simp add: save_after_template [OF idx prs sls] slF)
  then have tab: "table_at (snd (save pd ds data fs)) (filepath ds) 0 =
             Inr ((add_table (Suc r) (Suc c) (frame_left old) (frame_top old)
                     (frame_width old) (int (Suc r) * row_height h))\<lparr>rows := rs\<rparr>)"
    unfolding F using table_at_saved [OF sls g] by simp
  show thesis
    by (rule that [OF prs sls ti sl old rw csv rs tab])
qed

text \<open>
  C2. After a successful save of a data set of \<open>r\<close> rows and \<open>c\<close> columns, the table on
  the slide of the saved document has \<open>r + 1\<close> rows and \<open>c + 1\<close> columns, every row
  holding \<open>c + 1\<close> cells; \<open>r = 0\<close> gives a table of one row.
\<close>

theorem saved_table_shape:
  assumes "fst (save pd ds data fs) = Inr ()" and "df_shape pd data = (r, c)"
  shows "case table_at (snd (save pd ds data fs)) (filepath ds) 0 of
           Inl e \<Rightarrow> False
         | Inr t \<Rightarrow>
             length (rows t) = r + 1 \<and> length (columns t) = c + 1 \<and>
             list_all (\<lambda>rw. length (cells rw) = c + 1) (rows t)"
proof -
  from assms obtain old :: table and h b1 b2 csv rs where
    rs: "fill_rows (replicate (Suc r) (blank_row (row_height h) (Suc c))) (splitlines csv) h b1 b2
             = Inr rs" and
    t: "table_at (snd (save pd ds data fs)) (filepath ds) 0 =
             Inr ((add_table (Suc r) (Suc c) (frame_left old) (frame_top old)
                     (frame_width old) (int (Suc r) * row_height h))\<lparr>rows := rs\<rparr>)"
    by (rule save_InrE)
  from fill_rows_shape [OF rs] show ?thesis
    unfolding t by (simp add: add_table_def list_all_iff del: of_nat_Suc)
qed

theorem saved_table_shape_witness:
  "fst (save text_pandas (init ''out.pptx'' None None) empty_frame example_fs) = Inr () \<and>
   df_shape text_pandas empty_frame = (0, 2) \<and>
   (case table_at (snd (save text_pandas (init ''out.pptx'' None None) empty_frame example_fs))
           ''out.pptx'' 0 of
      Inl e \<Rightarrow> False
    | Inr t \<Rightarrow> length (rows t) = 1 \<and> length (columns t) = 3 \<and>
               list_all (\<lambda>rw. length (cells rw) = 3) (rows t))"
proof -
  have 1: "fst (save text_pandas (init ''out.pptx'' None None) empty_frame example_fs) = Inr ()"
    by code_simp
  have 2: "df_shape text_pandas empty_frame = (0, 2)"
    by code_simp
  have 3: "filepath (init ''out.pptx'' None None) = ''out.pptx''"
    by (simp add: init_def)
  from saved_table_shape [OF 1 2] 1 2 show ?thesis
    unfolding 3 by (simp split: sum.splits)
qed

subsection \<open>Header and band exemplars\<close>





subsection \<open>Saving and loading again\<close>
























end
